theory Spec2Isabelle
  imports Complex_Main "HOL-Library.Multiset" "HOL-Library.Sublist" "HOL-Library.Log_Nat"
begin

section \<open>Data model\<close>

text \<open>
  The scripts pass hashtags and songs around as Python dictionaries. A key that the code
  reads with \<^verbatim>\<open>d["key"]\<close> is a plain field of the record below; a key that
  the code reads with \<^verbatim>\<open>d.get("key")\<close> is an \<open>option\<close> field, \<open>None\<close>
  standing for the absent key. Integers are Python's unbounded integers. A Python float
  is the rational number that the double denotes; the arithmetic on floats that the
  claims depend on (division, multiplication, \<^verbatim>\<open>round\<close>, \<^verbatim>\<open>float\<close>) rounds to
  the nearest double, as defined in the section on floats below.
\<close>

record hashtag_rec =
  hashtag :: string
  rank :: int
  post_count :: "string option"
  numeric_post_count :: "rat option"
  ranking_direction :: "string option"
  ranking_change :: "int option"
  categories :: "string list option"
  lifecycle_stage :: "string option"
  period_momentum :: "string option"

record song_rec =
  song_name :: string
  artist :: "string option"
  song_post_count :: "string option"
  song_ranking_direction :: "string option"
  song_ranking_change :: "int option"
  song_categories :: "string list option"
  song_lifecycle_stage :: "string option"

text \<open>\<^verbatim>\<open>d.get(key, default)\<close>\<close>

definition get_or :: "'a option \<Rightarrow> 'a \<Rightarrow> 'a" where
  "get_or v d = (case v of None \<Rightarrow> d | Some x \<Rightarrow> x)"

section \<open>Trend predictor (ai_analyzer.py)\<close>

record prediction =
  pred_hashtag :: string
  current_rank :: int
  current_stage :: string
  score :: int
  status :: string
  longevity :: string

text \<open>\<^verbatim>\<open>{h["hashtag"]: h for h in hashtags_30d}\<close>: a later record replaces an earlier
  one with the same text.\<close>

definition hashtags_map :: "hashtag_rec list \<Rightarrow> (string \<rightharpoonup> hashtag_rec)" where
  "hashtags_map hs = foldl (\<lambda>m h. m(hashtag h \<mapsto> h)) Map.empty hs"

text \<open>The four factors added to the base score 50, before the cap.\<close>

definition raw_score :: "(string \<rightharpoonup> hashtag_rec) \<Rightarrow> hashtag_rec \<Rightarrow> int" where
  "raw_score m30 h =
    (let s0 = 50;
         s1 = (if ranking_direction h = Some ''up''
                 then s0 + min (get_or (ranking_change h) 0 * 2) 20
               else if ranking_direction h = Some ''down''
                 then s0 - min (get_or (ranking_change h) 0 * 2) 20
               else s0);
         s2 = (if lifecycle_stage h = Some ''rising'' then s1 + 15
               else if lifecycle_stage h = Some ''growing'' then s1 + 10
               else if lifecycle_stage h = Some ''declining'' then s1 - 15
               else s1);
         s3 = (case m30 (hashtag h) of
                 Some h30 \<Rightarrow>
                   (let a = (if rank h < rank h30 then s2 + 10
                             else if rank h > rank h30 then s2 - 5
                             else s2)
                    in if period_momentum h = Some ''accelerating'' then a + 15
                       else if period_momentum h = Some ''decelerating'' then a - 10
                       else a)
               | None \<Rightarrow> s2 + 5);
         pc = get_or (numeric_post_count h) 0
     in if pc > 1000000 then s3 + 5
        else if pc > 100000 then s3 + 3
        else s3)"

text \<open>The ordered threshold chain that picks the status.\<close>

definition prediction_status :: "int \<Rightarrow> string" where
  "prediction_status s =
    (if s \<ge> 70 then ''strongly_rising''
     else if s \<ge> 60 then ''rising''
     else if s \<le> 30 then ''strongly_declining''
     else if s \<le> 40 then ''declining''
     else ''stable'')"

definition estimate_trend_longevity :: "string \<Rightarrow> string" where
  "estimate_trend_longevity st =
    (if st = ''strongly_rising'' then ''2-3 weeks''
     else if st = ''rising'' then ''1-2 weeks''
     else if st = ''stable'' then ''5-7 days''
     else if st = ''declining'' then ''2-4 days''
     else ''1-2 days'')"

text \<open>One iteration of the loop of \<^verbatim>\<open>predict_trend_future\<close>: the status is chosen
  from the score before the cap, the stored score is the capped one.\<close>

definition predict_one :: "(string \<rightharpoonup> hashtag_rec) \<Rightarrow> hashtag_rec \<Rightarrow> prediction" where
  "predict_one m30 h =
    (let sc = raw_score m30 h;
         st = prediction_status sc
     in \<lparr> pred_hashtag = hashtag h,
          current_rank = rank h,
          current_stage = get_or (lifecycle_stage h) ''stable'',
          score = min (max sc 5) 95,
          status = st,
          longevity = estimate_trend_longevity st \<rparr>)"

text \<open>\<^verbatim>\<open>list.sort(key=..., reverse=True)\<close> is stable: equal keys keep their order.\<close>

definition sort_desc :: "('a \<Rightarrow> 'k::linordered_idom) \<Rightarrow> 'a list \<Rightarrow> 'a list" where
  "sort_desc k xs = sort_key (\<lambda>x. - k x) xs"

definition predict_trend_future :: "hashtag_rec list \<Rightarrow> hashtag_rec list \<Rightarrow> prediction list" where
  "predict_trend_future hashtags_7d hashtags_30d =
    sort_desc score (map (predict_one (hashtags_map hashtags_30d)) hashtags_7d)"

section \<open>Recommendation generator: the fit score (ai_analyzer.py)\<close>

text \<open>
  \<^verbatim>\<open>_calculate_combination_score\<close> draws \<^verbatim>\<open>np.random.randint(-5, 6)\<close> from
  NumPy's global generator, which the scripts never seed. The draw is the explicit
  argument \<open>r\<close>.
\<close>

text \<open>The score with the boosts and the draw added, before the cap.\<close>

definition uncapped_combination_score :: "hashtag_rec \<Rightarrow> song_rec \<Rightarrow> int \<Rightarrow> int" where
  "uncapped_combination_score h s r =
    (let b0 = 70;
         b1 = (if ranking_direction h = Some ''up'' \<and> song_ranking_direction s = Some ''up''
               then b0 + 15 else b0);
         b2 = (if lifecycle_stage h = Some ''rising'' \<and> song_lifecycle_stage s = Some ''rising''
               then b1 + 10 else b1)
     in b2 + r)"

definition calculate_combination_score :: "hashtag_rec \<Rightarrow> song_rec \<Rightarrow> int \<Rightarrow> int" where
  "calculate_combination_score h s r = min (max (uncapped_combination_score h s r) 60) 95"

section \<open>String operations of Python used by the scripts\<close>

text \<open>
  Strings are lists of 8-bit characters. \<^verbatim>\<open>str.lower\<close> and \<^verbatim>\<open>str.upper\<close> are
  modelled on the ASCII letters, \<^verbatim>\<open>str.split()\<close> on the ASCII white space.
\<close>

definition lower_char :: "char \<Rightarrow> char" where
  "lower_char c = (let n = (of_char c :: nat) in if 65 \<le> n \<and> n \<le> 90 then char_of (n + 32) else c)"

definition upper_char :: "char \<Rightarrow> char" where
  "upper_char c = (let n = (of_char c :: nat) in if 97 \<le> n \<and> n \<le> 122 then char_of (n - 32) else c)"

definition str_lower :: "string \<Rightarrow> string" where
  "str_lower s = map lower_char s"

definition str_upper :: "string \<Rightarrow> string" where
  "str_upper s = map upper_char s"

text \<open>\<^verbatim>\<open>s.replace(c, r)\<close> for a one-character pattern.\<close>

definition str_replace :: "char \<Rightarrow> string \<Rightarrow> string \<Rightarrow> string" where
  "str_replace c r s = concat (map (\<lambda>x. if x = c then r else [x]) s)"

text \<open>\<^verbatim>\<open>needle in hay\<close> on strings.\<close>

fun str_in :: "string \<Rightarrow> string \<Rightarrow> bool" where
  "str_in needle [] = (needle = [])"
| "str_in needle (c # cs) = (prefix needle (c # cs) \<or> str_in needle cs)"

definition is_space :: "char \<Rightarrow> bool" where
  "is_space c = (c \<in> {CHR '' '', CHR 0x09, CHR 0x0A, CHR 0x0B, CHR 0x0C, CHR 0x0D})"

fun split_acc :: "string \<Rightarrow> string \<Rightarrow> string list" where
  "split_acc cur [] = (if cur = [] then [] else [cur])"
| "split_acc cur (c # cs) =
     (if is_space c then (if cur = [] then split_acc [] cs else cur # split_acc [] cs)
      else split_acc (cur @ [c]) cs)"

definition str_split :: "string \<Rightarrow> string list" where
  "str_split s = split_acc [] s"

definition is_digit :: "char \<Rightarrow> bool" where
  "is_digit c = (let n = (of_char c :: nat) in 48 \<le> n \<and> n \<le> 57)"

text \<open>\<^verbatim>\<open>str(n)\<close> for a natural number.\<close>

function str_of_nat :: "nat \<Rightarrow> string" where
  "str_of_nat n = (if n < 10 then [char_of (48 + n)]
                   else str_of_nat (n div 10) @ [char_of (48 + n mod 10)])"
  by pat_completeness auto
termination
  by (relation "measure id") auto

section \<open>Enrichment (hourly_update.py)\<close>

definition category_keywords :: "(string \<times> string list) list" where
  "category_keywords =
    [(''entertainment'', [''dance'', ''challenge'', ''meme'', ''funny'', ''comedy'', ''viral'', ''trend'']),
     (''lifestyle'', [''fashion'', ''beauty'', ''outfit'', ''style'', ''aesthetic'']),
     (''food'', [''food'', ''recipe'', ''cooking'', ''meal'', ''baking'', ''chef'']),
     (''family'', [''mother'', ''mom'', ''family'', ''dad'', ''father'', ''kid'', ''parent'', ''child'']),
     (''travel'', [''travel'', ''vacation'', ''trip'', ''destination'', ''journey'']),
     (''fitness'', [''workout'', ''fitness'', ''gym'', ''exercise'', ''health''])]"

definition categorize_hashtag :: "string \<Rightarrow> string list" where
  "categorize_hashtag hashtag_text =
    (let text = str_replace (CHR ''-'') '' '' (str_replace (CHR ''_'') '' ''
                  (str_replace (CHR ''#'') [] (str_lower hashtag_text)));
         cats = map fst (filter (\<lambda>(category, keywords). list_ex (\<lambda>keyword. str_in keyword text) keywords)
                            category_keywords)
     in if cats = [] then [''other''] else cats)"

text \<open>The body of the hashtag loop of \<^verbatim>\<open>analyze_trends\<close>.\<close>

definition hashtag_stage :: "hashtag_rec \<Rightarrow> string" where
  "hashtag_stage h =
    (if ranking_direction h = Some ''up'' \<and> get_or (ranking_change h) 0 > 10 then ''rising''
     else if ranking_direction h = Some ''up'' \<and> get_or (ranking_change h) 0 > 5 then ''growing''
     else if ranking_direction h = Some ''down'' \<and> get_or (ranking_change h) 0 > 10 then ''declining''
     else ''stable'')"

definition enrich_hashtag :: "hashtag_rec \<Rightarrow> hashtag_rec" where
  "enrich_hashtag h =
    h\<lparr> categories := Some (categorize_hashtag (hashtag h)),
       lifecycle_stage := Some (hashtag_stage h) \<rparr>"

section \<open>Similarity clusterer (hourly_update.py)\<close>

definition are_hashtags_similar :: "hashtag_rec \<Rightarrow> hashtag_rec \<Rightarrow> bool" where
  "are_hashtags_similar hashtag1 hashtag2 =
    (let text1 = str_replace (CHR ''#'') [] (str_lower (hashtag hashtag1));
         text2 = str_replace (CHR ''#'') [] (str_lower (hashtag hashtag2))
     in if str_in text1 text2 \<or> str_in text2 text1 then True
        else
          (let words1 = remdups (str_split text1);
               words2 = remdups (str_split text2);
               common_words = filter (\<lambda>w. w \<in> set words2) words1
           in common_words \<noteq> [] \<and>
              2 * length common_words > max (length words1) (length words2)))"

text \<open>\<^verbatim>\<open>counts[k] = counts.get(k, 0) + 1\<close> on a dictionary that keeps insertion order.\<close>

fun dict_incr :: "'k \<Rightarrow> ('k \<times> nat) list \<Rightarrow> ('k \<times> nat) list" where
  "dict_incr k [] = [(k, 1)]"
| "dict_incr k ((k', n) # d) = (if k' = k then (k', n + 1) # d else (k', n) # dict_incr k d)"

definition count_all :: "'k list \<Rightarrow> ('k \<times> nat) list" where
  "count_all ks = foldl (\<lambda>d k. dict_incr k d) [] ks"

record cluster =
  cluster_id :: string
  items :: "(string \<times> int) list"
  size :: nat
  cluster_categories :: "string list"
  trend_strength :: nat

definition make_cluster :: "nat \<Rightarrow> hashtag_rec list \<Rightarrow> cluster" where
  "make_cluster n cluster_items =
    (let all_categories = concat (map (\<lambda>item. get_or (categories item) []) cluster_items);
         category_counts = count_all all_categories;
         top_categories = take 2 (map fst (sort_desc (\<lambda>(c, k). int k) category_counts))
     in \<lparr> cluster_id = ''cluster_'' @ str_of_nat n,
          items = map (\<lambda>item. (hashtag item, rank item)) cluster_items,
          size = length cluster_items,
          cluster_categories = top_categories,
          trend_strength = length (filter (\<lambda>item. lifecycle_stage item \<in> {Some ''rising'', Some ''growing''})
                                     cluster_items) \<rparr>)"

text \<open>
  The outer loop of \<^verbatim>\<open>cluster_hashtags\<close>, with the set \<open>processed\<close> and the list
  \<open>clusters\<close> passed along. The list argument is \<^verbatim>\<open>hashtags[i:]\<close>, so its tail is the
  slice \<^verbatim>\<open>hashtags[i+1:]\<close> that the inner loop scans. The inner loop tests similarity
  to the seed only; it does not look at \<open>processed\<close>.
\<close>

fun cluster_loop :: "hashtag_rec list \<Rightarrow> string set \<Rightarrow> cluster list \<Rightarrow> cluster list" where
  "cluster_loop [] processed clusters = clusters"
| "cluster_loop (hashtag1 # rest) processed clusters =
    (if hashtag hashtag1 \<in> processed then cluster_loop rest processed clusters
     else
       (let similar = filter (are_hashtags_similar hashtag1) rest;
            cluster_items = hashtag1 # similar;
            processed' = insert (hashtag hashtag1) processed \<union> set (map hashtag similar)
        in if length cluster_items \<ge> 2
           then cluster_loop rest processed' (clusters @ [make_cluster (length clusters) cluster_items])
           else cluster_loop rest processed' clusters))"

definition cluster_hashtags :: "hashtag_rec list \<Rightarrow> cluster list" where
  "cluster_hashtags hashtags = cluster_loop hashtags {} []"

section \<open>Emerging-trend detector (hourly_update.py)\<close>

record emerging =
  e_type :: string
  item :: string
  confidence :: int
  e_categories :: "string list"
  e_post_count :: string

definition hashtag_qualifies :: "hashtag_rec \<Rightarrow> bool" where
  "hashtag_qualifies h =
    ((ranking_direction h = Some ''up'' \<and> get_or (ranking_change h) 0 > 8)
     \<or> period_momentum h = Some ''accelerating'')"

definition hashtag_entry :: "hashtag_rec \<Rightarrow> emerging" where
  "hashtag_entry h =
    \<lparr> e_type = ''hashtag'',
      item = hashtag h,
      confidence = min 95 (50 + get_or (ranking_change h) 0 * 3),
      e_categories = get_or (categories h) [''other''],
      e_post_count = get_or (post_count h) ''N/A'' \<rparr>"

definition song_entry :: "song_rec \<Rightarrow> emerging" where
  "song_entry s =
    \<lparr> e_type = ''song'',
      item = song_name s @ '' - '' @ get_or (artist s) ''Unknown'',
      confidence = 90,
      e_categories = [''entertainment'', ''music''],
      e_post_count = get_or (song_post_count s) ''N/A'' \<rparr>"

text \<open>The arguments are \<^verbatim>\<open>data["hashtags_7d"]\<close> and \<^verbatim>\<open>data["breakout_songs"]\<close>.\<close>

definition identify_emerging_trends :: "hashtag_rec list \<Rightarrow> song_rec list \<Rightarrow> emerging list" where
  "identify_emerging_trends hashtags_7d breakout_songs =
    sort_desc confidence
      (map hashtag_entry (filter hashtag_qualifies hashtags_7d) @ map song_entry breakout_songs)"

section \<open>Python floats\<close>

text \<open>
  A finite double is a rational \<open>m * 2 ^ e\<close> with an integer \<open>m\<close> of at most 53 bits.
  Every float operation of Python returns the double nearest to the exact result, a tie
  going to the even mantissa. \<open>to_double\<close> is that rounding, for results in the range
  of the normal doubles (magnitude between \<open>2 ^ -1022\<close> and \<open>2 ^ 1024\<close>, or zero): it
  does not model overflow to infinity or the subnormal numbers.
\<close>

definition round_half_even :: "rat \<Rightarrow> int" where
  "round_half_even y =
    (let f = \<lfloor>y\<rfloor>; d = y - of_int f
     in if d < 1 / 2 then f
        else if d > 1 / 2 then f + 1
        else if even f then f else f + 1)"

definition pow2 :: "int \<Rightarrow> rat" where
  "pow2 e = (if e \<ge> 0 then 2 ^ nat e else 1 / 2 ^ nat (- e))"

text \<open>The exponent of the leading bit of a positive rational: the floor of its binary
  logarithm, from the bit length of an integer.\<close>

definition floor_log2 :: "rat \<Rightarrow> int" where
  "floor_log2 x =
    (if x \<ge> 1 then bitlen \<lfloor>x\<rfloor> - 1
     else - bitlen (\<lceil>1 / x\<rceil> - 1))"

definition to_double :: "rat \<Rightarrow> rat" where
  "to_double x =
    (if x = 0 then 0
     else
       (let e = floor_log2 \<bar>x\<bar> - 52;
            m = round_half_even (\<bar>x\<bar> / pow2 e)
        in sgn x * of_int m * pow2 e))"

text \<open>\<^verbatim>\<open>a / b\<close> and \<^verbatim>\<open>a * b\<close> on floats (and \<^verbatim>\<open>m / n\<close> on integers).\<close>

definition float_div :: "rat \<Rightarrow> rat \<Rightarrow> rat" where
  "float_div a b = to_double (a / b)"

definition float_mul :: "rat \<Rightarrow> rat \<Rightarrow> rat" where
  "float_mul a b = to_double (a * b)"

section \<open>Category analyzer (hourly_update.py)\<close>

text \<open>
  \<^verbatim>\<open>round(x, 1)\<close> on a float \<open>x\<close>: CPython takes the decimal with one fractional digit
  nearest to the exact value of the double \<open>x\<close> (a tie going to the even digit) and
  returns the double nearest to that decimal.
\<close>

definition py_round1 :: "rat \<Rightarrow> rat" where
  "py_round1 x = to_double (of_int (round_half_even (x * 10)) / 10)"

record category_stat =
  cat_name :: string
  cat_count :: nat
  percentage :: rat
  top_hashtags :: "(string \<times> int) list"

definition category_counts_of :: "hashtag_rec list \<Rightarrow> (string \<times> nat) list" where
  "category_counts_of hashtags =
    count_all (concat (map (\<lambda>h. get_or (categories h) [''other'']) hashtags))"

definition category_entry :: "hashtag_rec list \<Rightarrow> nat \<Rightarrow> string \<times> nat \<Rightarrow> category_stat" where
  "category_entry hashtags total_tags ce =
    (let category = fst ce; cnt = snd ce;
         category_hashtags = sort_key rank
            (filter (\<lambda>h. category \<in> set (get_or (categories h) [])) hashtags)
     in \<lparr> cat_name = category,
          cat_count = cnt,
          percentage = py_round1 (float_mul (float_div (of_nat cnt) (of_nat total_tags)) 100),
          top_hashtags = map (\<lambda>h. (hashtag h, rank h)) (take 3 category_hashtags) \<rparr>)"

definition analyze_categories :: "hashtag_rec list \<Rightarrow> category_stat list" where
  "analyze_categories hashtags =
    (if hashtags = [] then []
     else
       (let category_counts = category_counts_of hashtags;
            total_tags = sum_list (map snd category_counts)
        in sort_desc (\<lambda>c. int (cat_count c))
             (map (category_entry hashtags total_tags) category_counts)))"

section \<open>Post-count parser (tiktok_scraper.py, tiktok_trend_scraper.py)\<close>

text \<open>
  The argument of \<^verbatim>\<open>parse_count\<close> is \<^verbatim>\<open>None\<close>, a number or a string. The two
  scrapers hold the same function text.
\<close>

datatype count_value = CNone | CNum rat | CStr string

text \<open>\<^verbatim>\<open>re.search(r'(\d+\.?\d*)', s)\<close>: the leftmost digit run, then an optional point
  and the digits after it.\<close>

definition re_search_number :: "string \<Rightarrow> string option" where
  "re_search_number s =
    (let t = dropWhile (\<lambda>c. \<not> is_digit c) s
     in if t = [] then None
        else
          (let ip = takeWhile is_digit t; r = dropWhile is_digit t
           in case r of
                [] \<Rightarrow> Some ip
              | c # r' \<Rightarrow> if c = CHR ''.'' then Some (ip @ [c] @ takeWhile is_digit r')
                          else Some ip))"

definition nat_of_digits :: "string \<Rightarrow> nat" where
  "nat_of_digits ds = foldl (\<lambda>a c. 10 * a + (of_char c - 48)) 0 ds"

text \<open>\<^verbatim>\<open>float(g)\<close> for a matched group \<open>g\<close> (digits, or digits, a point and
  digits): the double nearest to the number that the numeral denotes.\<close>

definition py_float :: "string \<Rightarrow> rat" where
  "py_float g =
    (let ip = takeWhile is_digit g; fp = drop (length ip + 1) g
     in to_double (of_nat (nat_of_digits ip) + of_nat (nat_of_digits fp) / 10 ^ length fp))"

definition parse_count :: "count_value \<Rightarrow> rat" where
  "parse_count count_str =
    (case count_str of
       CNone \<Rightarrow> 0
     | CNum n \<Rightarrow> (if n = 0 then 0 else n)
     | CStr s \<Rightarrow>
         (if s = [] then 0
          else
            (let u = str_replace (CHR '','') [] (str_upper s);
                 (multiplier, v) =
                    (if CHR ''K'' \<in> set u then (1000, str_replace (CHR ''K'') [] u)
                     else if CHR ''M'' \<in> set u then (1000000, str_replace (CHR ''M'') [] u)
                     else if CHR ''B'' \<in> set u then (1000000000, str_replace (CHR ''B'') [] u)
                     else (1, u))
             in case re_search_number v of
                  Some g \<Rightarrow> float_mul (py_float g) multiplier
                | None \<Rightarrow> 0)))"

section \<open>Topic modeler (ai_analyzer.py)\<close>

datatype py_error = KeyError | AttributeError | PyException string

record topic =
  topic_id :: string
  topic_name :: string
  topic_keywords :: "string list"
  topic_hashtags :: "(string \<times> int \<times> rat) list"
  strength :: rat

definition generate_default_topics :: "topic list" where
  "generate_default_topics =
    [\<lparr> topic_id = ''topic_1'', topic_name = ''Entertainment Content'',
       topic_keywords = [''dance'', ''challenge'', ''funny'', ''comedy'', ''trend''],
       topic_hashtags = [], strength = 85 / 100 \<rparr>,
     \<lparr> topic_id = ''topic_2'', topic_name = ''Lifestyle Content'',
       topic_keywords = [''lifestyle'', ''routine'', ''daily'', ''tips'', ''hacks''],
       topic_hashtags = [], strength = 75 / 100 \<rparr>,
     \<lparr> topic_id = ''topic_3'', topic_name = ''Food Content'',
       topic_keywords = [''food'', ''recipe'', ''cooking'', ''meal'', ''delicious''],
       topic_hashtags = [], strength = 7 / 10 \<rparr>]"

text \<open>
  scikit-learn and NumPy are not part of the repository. The calls into them are the
  fields of a record that the stage takes as an argument, each call either raising
  (\<open>Inl\<close>) or returning (\<open>Inr\<close>):
  \<^item> \<open>fit_transform min_df max_df corpus\<close>: the \<^verbatim>\<open>CountVectorizer\<close> with the fixed
    stop words, fitted on the corpus;
  \<^item> \<open>dtm_sum\<close>: \<^verbatim>\<open>dtm.sum()\<close>;
  \<^item> \<open>lda_fit n_components random_state dtm\<close>: \<^verbatim>\<open>LatentDirichletAllocation(...).fit\<close>;
  \<^item> \<open>extract_topics\<close>: the loop over \<^verbatim>\<open>lda.components_\<close> that builds the topic
    entries from the NumPy arrays.
\<close>

record ('dtm, 'lda) sklearn =
  fit_transform :: "nat \<Rightarrow> rat \<Rightarrow> string list \<Rightarrow> py_error + 'dtm"
  dtm_sum :: "'dtm \<Rightarrow> int"
  lda_fit :: "int \<Rightarrow> nat \<Rightarrow> 'dtm \<Rightarrow> py_error + 'lda"
  extract_topics :: "'dtm \<Rightarrow> 'lda \<Rightarrow> hashtag_rec list \<Rightarrow> py_error + topic list"

definition clean_text :: "string \<Rightarrow> string" where
  "clean_text t = str_replace (CHR ''-'') '' '' (str_replace (CHR ''_'') '' ''
                    (str_replace (CHR ''#'') [] (str_lower t)))"

text \<open>The body of the \<^verbatim>\<open>try\<close> block.\<close>

definition topic_modeling ::
  "('dtm, 'lda) sklearn \<Rightarrow> string list \<Rightarrow> hashtag_rec list \<Rightarrow> int \<Rightarrow> py_error + topic list" where
  "topic_modeling lib corpus hashtags num_topics =
    (let (min_df, max_df) = (if length corpus < 10 then (1, 95 / 100) else (2, 9 / 10))
     in case fit_transform lib min_df max_df corpus of
          Inl e \<Rightarrow> Inl e
        | Inr dtm \<Rightarrow>
            if dtm_sum lib dtm = 0 then Inr generate_default_topics
            else
              (case lda_fit lib (min num_topics (int (length corpus) div 2 + 1)) 42 dtm of
                 Inl e \<Rightarrow> Inl e
               | Inr lda \<Rightarrow>
                   (case extract_topics lib dtm lda hashtags of
                      Inl e \<Rightarrow> Inl e
                    | Inr found \<Rightarrow>
                        (let topics = sort_desc strength found
                         in if topics = [] then Inr generate_default_topics
                            else Inr topics))))"

text \<open>The stage: the guards before the \<^verbatim>\<open>try\<close>, then the \<^verbatim>\<open>try\<close> block with its
  \<^verbatim>\<open>except Exception\<close> handler.\<close>

definition identify_hashtag_topics ::
  "('dtm, 'lda) sklearn \<Rightarrow> hashtag_rec list \<Rightarrow> int \<Rightarrow> py_error + topic list" where
  "identify_hashtag_topics lib hashtags num_topics =
    (if hashtags = [] then Inr []
     else
       (let corpus = map (\<lambda>h. clean_text (hashtag h)) hashtags
        in if length corpus < 5 then Inr generate_default_topics
           else
             (case topic_modeling lib corpus hashtags num_topics of
                Inl e \<Rightarrow> Inr generate_default_topics
              | Inr topics \<Rightarrow> Inr topics)))"

text \<open>
  The stage receives \<^verbatim>\<open>data.get("hashtags_7d", [])\<close> as \<^verbatim>\<open>json.load\<close> delivers it.
  An element of that list need not carry a text: the key \<^verbatim>\<open>"hashtag"\<close> can be absent,
  and then \<^verbatim>\<open>hashtag["hashtag"]\<close> raises \<^verbatim>\<open>KeyError\<close>, or its value can be
  \<^verbatim>\<open>null\<close>, and then \<^verbatim>\<open>.lower()\<close> raises \<^verbatim>\<open>AttributeError\<close>. Both happen in
  the loop that builds the corpus, before the \<^verbatim>\<open>try\<close> block.
\<close>

datatype json_hashtag = Missing_text | Null_text | Hashtag hashtag_rec

text \<open>The corpus loop: it stops at the first element without a text.\<close>

fun read_hashtags :: "json_hashtag list \<Rightarrow> py_error + hashtag_rec list" where
  "read_hashtags [] = Inr []"
| "read_hashtags (Missing_text # js) = Inl KeyError"
| "read_hashtags (Null_text # js) = Inl AttributeError"
| "read_hashtags (Hashtag h # js) =
     (case read_hashtags js of Inl e \<Rightarrow> Inl e | Inr hs \<Rightarrow> Inr (h # hs))"

text \<open>The stage on such a list: the guard for the empty list, the corpus loop, and then
  the rest of the function as \<open>identify_hashtag_topics\<close> has it.\<close>

definition identify_hashtag_topics_json ::
  "('dtm, 'lda) sklearn \<Rightarrow> json_hashtag list \<Rightarrow> int \<Rightarrow> py_error + topic list" where
  "identify_hashtag_topics_json lib hashtags num_topics =
    (if hashtags = [] then Inr []
     else
       (case read_hashtags hashtags of
          Inl e \<Rightarrow> Inl e
        | Inr hs \<Rightarrow> identify_hashtag_topics lib hs num_topics))"

text \<open>A library for closed examples: its vectorizer raises, as scikit-learn does on an
  empty vocabulary.\<close>

definition raising_lib :: "(unit, unit) sklearn" where
  "raising_lib =
    \<lparr> fit_transform = (\<lambda>min_df max_df corpus. Inl (PyException ''empty vocabulary'')),
      dtm_sum = (\<lambda>d. 0),
      lda_fit = (\<lambda>n seed d. Inr ()),
      extract_topics = (\<lambda>d l hs. Inr []) \<rparr>"

section \<open>Example records\<close>

text \<open>A hashtag and a song that carry only the keys the code indexes directly.\<close>

definition plain_hashtag :: "string \<Rightarrow> int \<Rightarrow> hashtag_rec" where
  "plain_hashtag t r =
    \<lparr> hashtag = t, rank = r, post_count = None, numeric_post_count = None,
      ranking_direction = None, ranking_change = None, categories = None,
      lifecycle_stage = None, period_momentum = None \<rparr>"

definition plain_song :: "string \<Rightarrow> song_rec" where
  "plain_song n =
    \<lparr> song_name = n, artist = None, song_post_count = None, song_ranking_direction = None,
      song_ranking_change = None, song_categories = None, song_lifecycle_stage = None \<rparr>"

text \<open>The hashtag of the scenario: text, rank, direction and change, nothing else.\<close>

definition dancechallenge :: hashtag_rec where
  "dancechallenge =
    (plain_hashtag ''#dancechallenge'' 1)
      \<lparr> ranking_direction := Some ''up'', ranking_change := Some 12 \<rparr>"

text \<open>Five hashtags, the least number for which the stage reaches the \<^verbatim>\<open>try\<close> block.\<close>

definition five_hashtags :: "hashtag_rec list" where
  "five_hashtags =
    [plain_hashtag ''#cat'' 1, plain_hashtag ''#dog'' 2, plain_hashtag ''#catdog'' 3,
     plain_hashtag ''#food'' 4, plain_hashtag ''#gym'' 5]"

text \<open>A hashtag that already carries category tags.\<close>

definition tagged_hashtag :: "string \<Rightarrow> int \<Rightarrow> string list \<Rightarrow> hashtag_rec" where
  "tagged_hashtag t r cs = (plain_hashtag t r)\<lparr> categories := Some cs \<rparr>"

text \<open>Three hashtags with one category each, and one hashtag with two categories.\<close>

definition three_single :: "hashtag_rec list" where
  "three_single = [tagged_hashtag ''#dance'' 1 [''entertainment''],
                   tagged_hashtag ''#recipe'' 2 [''food''],
                   tagged_hashtag ''#gym'' 3 [''fitness'']]"

definition one_double :: "hashtag_rec list" where
  "one_double = [tagged_hashtag ''#foodfashion'' 1 [''lifestyle'', ''food'']]"

text \<open>
  The number that a decimal numeral denotes, from its integer digits and its fraction
  digits: what the specification calls ``the number'' in front of a suffix.
\<close>

definition decimal_value :: "string \<Rightarrow> string \<Rightarrow> rat" where
  "decimal_value ip fp = of_nat (nat_of_digits ip) + of_nat (nat_of_digits fp) / 10 ^ length fp"

section \<open>Auxiliary facts\<close>

lemma prediction_status_clamp: "prediction_status (min (max s 5) 95) = prediction_status s"
  by (simp add: prediction_status_def min_def max_def)

lemma sort_desc_mset: "mset (sort_desc k xs) = mset xs"
  by (simp add: sort_desc_def)

lemma sort_desc_set: "set (sort_desc k xs) = set xs"
  by (simp add: sort_desc_def)

lemma sort_desc_sorted: "sorted_wrt (\<lambda>a b. k a \<ge> k b) (sort_desc k xs)"
proof -
  have "sorted (map (\<lambda>x. - k x) (sort_key (\<lambda>x. - k x) xs))"
    by (rule sorted_sort_key)
  then show ?thesis
    by (simp add: sort_desc_def sorted_map)
qed

lemma hashtags_map_None_aux:
  "k \<notin> hashtag ` set hs \<Longrightarrow> foldl (\<lambda>m h. m(hashtag h \<mapsto> h)) m0 hs k = m0 k"
  by (induction hs arbitrary: m0) auto

lemma hashtags_map_None: "k \<notin> hashtag ` set hs \<Longrightarrow> hashtags_map hs k = None"
  by (simp add: hashtags_map_def hashtags_map_None_aux)

lemma enriched_fields:
  "hashtag (enrich_hashtag dancechallenge) = ''#dancechallenge''"
  "rank (enrich_hashtag dancechallenge) = 1"
  "ranking_direction (enrich_hashtag dancechallenge) = Some ''up''"
  "ranking_change (enrich_hashtag dancechallenge) = Some 12"
  "lifecycle_stage (enrich_hashtag dancechallenge) = Some ''rising''"
  "period_momentum (enrich_hashtag dancechallenge) = None"
  "numeric_post_count (enrich_hashtag dancechallenge) = None"
  by (simp_all add: enrich_hashtag_def hashtag_stage_def dancechallenge_def plain_hashtag_def get_or_def)

lemma make_cluster_size:
  "size (make_cluster n its) = length its \<and> length (items (make_cluster n its)) = length its"
  by (simp add: make_cluster_def Let_def)

text \<open>Every cluster the loop emits has at least two members.\<close>

lemma cluster_loop_size:
  "(\<And>c. c \<in> set clusters \<Longrightarrow> size c \<ge> 2 \<and> length (items c) = size c) \<Longrightarrow>
   c \<in> set (cluster_loop hs processed clusters) \<Longrightarrow> size c \<ge> 2 \<and> length (items c) = size c"
proof (induction hs arbitrary: processed clusters)
  case Nil
  then show ?case by simp
next
  case (Cons hashtag1 rest)
  let ?sim = "filter (are_hashtags_similar hashtag1) rest"
  let ?p = "insert (hashtag hashtag1) processed \<union> set (map hashtag ?sim)"
  let ?new = "make_cluster (length clusters) (hashtag1 # ?sim)"
  consider (skip) "hashtag hashtag1 \<in> processed"
    | (single) "hashtag hashtag1 \<notin> processed" "\<not> 2 \<le> length (hashtag1 # ?sim)"
    | (emit) "hashtag hashtag1 \<notin> processed" "2 \<le> length (hashtag1 # ?sim)"
    by blast
  then show ?case
  proof cases
    case skip
    then have "cluster_loop (hashtag1 # rest) processed clusters = cluster_loop rest processed clusters"
      by simp
    with Cons show ?thesis by metis
  next
    case single
    then have "cluster_loop (hashtag1 # rest) processed clusters = cluster_loop rest ?p clusters"
      by (simp add: Let_def)
    with Cons show ?thesis by metis
  next
    case emit
    then have eq: "cluster_loop (hashtag1 # rest) processed clusters
                     = cluster_loop rest ?p (clusters @ [?new])"
      by (simp add: Let_def)
    have inv: "\<And>c. c \<in> set (clusters @ [?new]) \<Longrightarrow> size c \<ge> 2 \<and> length (items c) = size c"
      using Cons.prems(1) emit(2) make_cluster_size[of "length clusters" "hashtag1 # ?sim"] by auto
    from Cons.prems(2) eq have "c \<in> set (cluster_loop rest ?p (clusters @ [?new]))" by simp
    with Cons.IH[OF inv] show ?thesis by blast
  qed
qed

lemma cluster_hashtags_size:
  "c \<in> set (cluster_hashtags hs) \<Longrightarrow> size c \<ge> 2 \<and> length (items c) = size c"
  unfolding cluster_hashtags_def by (rule cluster_loop_size[of "[]"]) simp_all

subsection \<open>Rounding to the nearest double\<close>

lemma round_half_even_error: "\<bar>of_int (round_half_even y) - y\<bar> \<le> 1 / 2"
proof -
  define f where "f = \<lfloor>y\<rfloor>"
  define d where "d = y - of_int f"
  define r where "r = (if d < 1 / 2 then f else if d > 1 / 2 then f + 1
              else if even f then f else f + 1)"
  have d0: "0 \<le> d" and d1: "d < 1"
    unfolding d_def f_def by linarith+
  have y: "y = of_int f + d" unfolding d_def by simp
  have p: "round_half_even y = r"
    unfolding round_half_even_def Let_def r_def d_def f_def ..
  have "\<bar>of_int r - (of_int f + d)\<bar> \<le> 1 / 2"
    unfolding r_def using d0 d1 by (auto simp: abs_if)
  then show ?thesis
    unfolding p by (simp only: y[symmetric])
qed

lemma pow2_powi: "pow2 e = 2 powi e"
  by (simp add: pow2_def power_int_def inverse_eq_divide power_one_over)

lemma pow2_pos: "0 < pow2 e"
  by (simp add: pow2_powi)

lemma pow2_diff: "pow2 (a - b) = pow2 a / pow2 b"
  by (simp add: pow2_powi power_int_diff)

lemma floor_log2_lower:
  assumes "0 < x"
  shows "pow2 (floor_log2 x) \<le> x"
proof (cases "1 \<le> x")
  case True
  define n where "n = nat \<lfloor>x\<rfloor>"
  have n: "0 < n" using True by (simp add: n_def)
  then have "floorlog 2 n \<noteq> 0" by (simp add: floorlog_eq_zero_iff)
  then have fl: "0 < floorlog 2 n" by simp
  have nat_le: "(2::nat) ^ (floorlog 2 n - 1) \<le> n"
    using floorlog_bounds[of n 2] n by simp
  have "(2::rat) ^ (floorlog 2 n - 1) = of_nat ((2::nat) ^ (floorlog 2 n - 1))"
    by simp
  also have "\<dots> \<le> of_nat n"
    using nat_le by (simp only: of_nat_le_iff)
  also have "(of_nat n :: rat) \<le> x"
    using True by (simp add: n_def)
  finally have "(2::rat) ^ (floorlog 2 n - 1) \<le> x" .
  moreover have "floor_log2 x = int (floorlog 2 n - 1)"
    using True fl by (simp add: floor_log2_def n_def bitlen_def)
  ultimately show ?thesis
    by (simp add: pow2_powi)
next
  case False
  define k where "k = \<lceil>1 / x\<rceil>"
  define n where "n = nat (k - 1)"
  from False assms have "1 < 1 / x" by (simp add: field_simps)
  then have c: "2 \<le> k" unfolding k_def by linarith
  then have n: "0 < n" by (simp add: n_def)
  have "n < 2 ^ floorlog 2 n"
    using floorlog_bounds[of n 2] n by simp
  then have nat_le: "n + 1 \<le> 2 ^ floorlog 2 n" by simp
  have "1 / x \<le> of_int k" unfolding k_def by linarith
  also have "(of_int k :: rat) = of_nat (n + 1)"
    using c by (simp add: n_def)
  also have "\<dots> \<le> of_nat (2 ^ floorlog 2 n)"
    using nat_le by (simp only: of_nat_le_iff)
  also have "\<dots> = 2 ^ floorlog 2 n" by simp
  finally have "1 / x \<le> 2 ^ floorlog 2 n" .
  then have "1 / 2 ^ floorlog 2 n \<le> x"
    using assms by (simp add: field_simps)
  moreover have "floor_log2 x = - int (floorlog 2 n)"
    using False by (simp add: floor_log2_def n_def k_def bitlen_def)
  ultimately show ?thesis
    by (simp add: pow2_powi power_int_minus_divide)
qed

lemma floor_log2_upper:
  assumes "0 < x"
  shows "x < pow2 (floor_log2 x + 1)"
proof (cases "1 \<le> x")
  case True
  define n where "n = nat \<lfloor>x\<rfloor>"
  have n: "0 < n" using True by (simp add: n_def)
  have nat_lt: "n < 2 ^ floorlog 2 n"
    using floorlog_bounds[of n 2] n by simp
  then have nat_le: "n + 1 \<le> 2 ^ floorlog 2 n" by simp
  have "x < of_int \<lfloor>x\<rfloor> + 1" by linarith
  also have "(of_int \<lfloor>x\<rfloor> + 1 :: rat) = of_nat (n + 1)"
    using True by (simp add: n_def)
  also have "\<dots> \<le> of_nat (2 ^ floorlog 2 n)"
    using nat_le by (simp only: of_nat_le_iff)
  also have "\<dots> = 2 ^ floorlog 2 n" by simp
  finally have "x < 2 ^ floorlog 2 n" .
  moreover have "floor_log2 x + 1 = int (floorlog 2 n)"
    using True by (simp add: floor_log2_def n_def bitlen_def)
  ultimately show ?thesis
    by (simp add: pow2_powi)
next
  case False
  define k where "k = \<lceil>1 / x\<rceil>"
  define n where "n = nat (k - 1)"
  from False assms have "1 < 1 / x" by (simp add: field_simps)
  then have c: "2 \<le> k" unfolding k_def by linarith
  then have n: "0 < n" by (simp add: n_def)
  then have "floorlog 2 n \<noteq> 0" by (simp add: floorlog_eq_zero_iff)
  then have fl: "0 < floorlog 2 n" by simp
  have nat_le: "(2::nat) ^ (floorlog 2 n - 1) \<le> n"
    using floorlog_bounds[of n 2] n by simp
  have "(2::rat) ^ (floorlog 2 n - 1) = of_nat ((2::nat) ^ (floorlog 2 n - 1))"
    by simp
  also have "\<dots> \<le> of_nat n"
    using nat_le by (simp only: of_nat_le_iff)
  also have "(of_nat n :: rat) = of_int k - 1"
    using c by (simp add: n_def)
  also have "\<dots> < 1 / x" unfolding k_def by linarith
  finally have "(2::rat) ^ (floorlog 2 n - 1) < 1 / x" .
  then have "x < 1 / 2 ^ (floorlog 2 n - 1)"
    using assms by (simp add: field_simps)
  moreover have "floor_log2 x + 1 = - int (floorlog 2 n - 1)"
    using False fl by (simp add: floor_log2_def n_def k_def bitlen_def)
  ultimately show ?thesis
    by (simp add: pow2_powi power_int_minus_divide)
qed

text \<open>The scaled magnitude that \<open>to_double\<close> rounds to an integer lies between
  \<open>2 ^ 52\<close> and \<open>2 ^ 53\<close>: the mantissa has 53 bits.\<close>

lemma to_double_mantissa:
  assumes "x \<noteq> 0"
  shows "2 ^ 52 \<le> \<bar>x\<bar> / pow2 (floor_log2 \<bar>x\<bar> - 52)
       \<and> \<bar>x\<bar> / pow2 (floor_log2 \<bar>x\<bar> - 52) < 2 ^ 53"
proof -
  define a where "a = \<bar>x\<bar>"
  have a: "0 < a" using assms by (simp add: a_def)
  have lo: "pow2 (floor_log2 a) \<le> a" using a by (rule floor_log2_lower)
  have hi: "a < pow2 (floor_log2 a + 1)" using a by (rule floor_log2_upper)
  have p: "0 < pow2 (floor_log2 a)" by (rule pow2_pos)
  have e: "pow2 (floor_log2 a - 52) = pow2 (floor_log2 a) / 2 ^ 52"
    unfolding pow2_diff by (simp add: pow2_powi)
  have s: "pow2 (floor_log2 a + 1) = pow2 (floor_log2 a) * 2"
    by (simp add: pow2_powi power_int_add)
  define q where "q = a / pow2 (floor_log2 a)"
  have eq: "a / pow2 (floor_log2 a - 52) = q * 2 ^ 52"
    unfolding e q_def by simp
  have q1: "1 \<le> q" using lo p by (simp add: q_def field_simps)
  have q2: "q < 2" using hi p unfolding s by (simp add: q_def field_simps)
  have "(2::rat) ^ 52 \<le> q * 2 ^ 52" using q1 by simp
  moreover have "q * 2 ^ 52 < (2::rat) ^ 53" using q2 by simp
  ultimately show ?thesis unfolding a_def[symmetric] eq by blast
qed

text \<open>The relative error of one rounding is at most \<open>2 ^ -53\<close>.\<close>

lemma to_double_error: "\<bar>to_double x - x\<bar> \<le> \<bar>x\<bar> / 2 ^ 53"
proof (cases "x = 0")
  case True
  then show ?thesis by (simp add: to_double_def)
next
  case False
  define a where "a = \<bar>x\<bar>"
  define e where "e = floor_log2 a - 52"
  define m where "m = round_half_even (a / pow2 e)"
  have a: "0 < a" using False by (simp add: a_def)
  have pe: "0 < pow2 e" by (rule pow2_pos)
  have "pow2 (floor_log2 a) \<le> a" using a by (rule floor_log2_lower)
  then have le: "pow2 e * 2 ^ 52 \<le> a"
    unfolding e_def pow2_diff by (simp add: pow2_powi)
  have td: "to_double x = sgn x * (of_int m * pow2 e)"
    using False by (simp add: to_double_def Let_def m_def e_def a_def mult.assoc)
  have x: "x = sgn x * a" by (simp add: a_def sgn_mult_abs)
  have "\<bar>of_int m - a / pow2 e\<bar> \<le> 1 / 2"
    unfolding m_def by (rule round_half_even_error)
  then have "\<bar>of_int m - a / pow2 e\<bar> * pow2 e \<le> 1 / 2 * pow2 e"
    using pe by (simp only: mult_le_cancel_right_pos)
  moreover have "\<bar>of_int m - a / pow2 e\<bar> * pow2 e = \<bar>of_int m * pow2 e - a\<bar>"
  proof -
    have "\<bar>of_int m - a / pow2 e\<bar> * pow2 e = \<bar>(of_int m - a / pow2 e) * pow2 e\<bar>"
      using pe by (simp add: abs_mult)
    also have "(of_int m - a / pow2 e) * pow2 e = of_int m * pow2 e - a"
      using pe by (simp add: field_simps)
    finally show ?thesis .
  qed
  ultimately have "\<bar>of_int m * pow2 e - a\<bar> \<le> pow2 e / 2" by simp
  also have "\<dots> \<le> a / 2 ^ 53" using le by (simp add: field_simps)
  finally have "\<bar>of_int m * pow2 e - a\<bar> \<le> a / 2 ^ 53" .
  moreover have "\<bar>to_double x - x\<bar> = \<bar>of_int m * pow2 e - a\<bar>"
  proof -
    have "to_double x - x = sgn x * (of_int m * pow2 e - a)"
      by (subst (2) x) (simp add: td right_diff_distrib)
    then show ?thesis using False by (simp add: abs_mult)
  qed
  ultimately show ?thesis by (simp add: a_def)
qed

lemma float_product_error:
  assumes "0 \<le> v" and "0 < m"
  shows "\<bar>to_double (to_double v * m) - v * m\<bar> \<le> v * m / 2 ^ 51"
proof -
  define u :: rat where "u = 1 / 2 ^ 53"
  define a where "a = to_double v"
  have "\<bar>a - v\<bar> \<le> \<bar>v\<bar> / 2 ^ 53" unfolding a_def by (rule to_double_error)
  then have ea: "\<bar>a - v\<bar> \<le> v * u" using assms(1) by (simp add: u_def)
  have u1: "u \<le> 1" "0 \<le> u" by (simp_all add: u_def)
  have "v * u \<le> v * 1" using assms(1) u1 by (intro mult_left_mono) simp_all
  then have a2: "\<bar>a\<bar> \<le> 2 * v" using ea by linarith
  have "\<bar>to_double (a * m) - a * m\<bar> \<le> \<bar>a * m\<bar> / 2 ^ 53" by (rule to_double_error)
  also have "\<dots> = \<bar>a\<bar> * (m * u)" using assms(2) by (simp add: abs_mult u_def)
  also have "\<dots> \<le> 2 * v * (m * u)"
    using a2 assms(2) u1 by (intro mult_right_mono) simp_all
  finally have e2: "\<bar>to_double (a * m) - a * m\<bar> \<le> 2 * (v * m * u)" by (simp add: mult_ac)
  have "\<bar>a * m - v * m\<bar> = \<bar>a - v\<bar> * m"
    using assms(2) by (simp add: abs_mult left_diff_distrib[symmetric])
  also have "\<dots> \<le> v * u * m" using ea assms(2) by (intro mult_right_mono) simp_all
  finally have e1: "\<bar>a * m - v * m\<bar> \<le> v * m * u" by (simp add: mult_ac)
  have "\<bar>to_double (a * m) - v * m\<bar> \<le> 3 * (v * m * u)"
    using e1 e2 by linarith
  also have "\<dots> \<le> 4 * (v * m * u)" using assms u1 by simp
  also have "\<dots> = v * m / 2 ^ 51" by (simp add: u_def)
  finally show ?thesis unfolding a_def .
qed

subsection \<open>Category counts and percentages\<close>

lemma dict_incr_pos: "(\<And>k n. (k, n) \<in> set d \<Longrightarrow> 0 < n) \<Longrightarrow> (k', n') \<in> set (dict_incr k d) \<Longrightarrow> 0 < n'"
  by (induction k d rule: dict_incr.induct) (auto split: if_splits)

lemma dict_incr_fold_pos:
  "(\<And>k n. (k, n) \<in> set d \<Longrightarrow> 0 < n) \<Longrightarrow> (k', n') \<in> set (foldl (\<lambda>d k. dict_incr k d) d ks) \<Longrightarrow> 0 < n'"
proof (induction ks arbitrary: d)
  case Nil
  then show ?case by simp
next
  case (Cons k ks)
  show ?case
  proof (rule Cons.IH[of "dict_incr k d"])
    show "\<And>k'' n. (k'', n) \<in> set (dict_incr k d) \<Longrightarrow> 0 < n"
      using Cons.prems(1) dict_incr_pos[of d] by blast
    show "(k', n') \<in> set (foldl (\<lambda>d k. dict_incr k d) (dict_incr k d) ks)"
      using Cons.prems(2) by simp
  qed
qed

lemma count_all_pos: "(k, n) \<in> set (count_all ks) \<Longrightarrow> 0 < n"
  unfolding count_all_def by (rule dict_incr_fold_pos[of "[]"]) simp_all

lemma sum_list_pos_total:
  fixes d :: "('k \<times> nat) list"
  shows "d \<noteq> [] \<Longrightarrow> (\<And>k n. (k, n) \<in> set d \<Longrightarrow> 0 < n) \<Longrightarrow> 0 < sum_list (map snd d)"
proof (cases d)
  case Nil
  then show "d \<noteq> [] \<Longrightarrow> ?thesis" by simp
next
  case (Cons a list)
  assume pos: "\<And>k n. (k, n) \<in> set d \<Longrightarrow> 0 < n"
  have "(fst a, snd a) \<in> set d" using Cons by simp
  then have "0 < snd a" by (rule pos)
  then show ?thesis using Cons by auto
qed

lemma member_le_total:
  fixes d :: "('k \<times> nat) list"
  shows "ce \<in> set d \<Longrightarrow> snd ce \<le> sum_list (map snd d)"
  by (induction d) auto

lemma exact_shares_sum:
  "(\<Sum>ce\<leftarrow>d. (of_nat (snd ce) / T * 100 :: rat)) = of_nat (sum_list (map snd d)) / T * 100"
  by (induction d) (simp_all add: add_divide_distrib distrib_right)

lemma sum_error_bound:
  fixes f g :: "'a \<Rightarrow> rat"
  assumes "\<And>x. x \<in> set xs \<Longrightarrow> \<bar>f x - g x\<bar> \<le> b"
  shows "\<bar>(\<Sum>x\<leftarrow>xs. f x) - (\<Sum>x\<leftarrow>xs. g x)\<bar> \<le> of_nat (length xs) * b"
  using assms
proof (induction xs)
  case Nil
  then show ?case by simp
next
  case (Cons a xs)
  have "\<bar>(\<Sum>x\<leftarrow>a # xs. f x) - (\<Sum>x\<leftarrow>a # xs. g x)\<bar>
        = \<bar>(f a - g a) + ((\<Sum>x\<leftarrow>xs. f x) - (\<Sum>x\<leftarrow>xs. g x))\<bar>"
    by simp
  also have "\<dots> \<le> \<bar>f a - g a\<bar> + \<bar>(\<Sum>x\<leftarrow>xs. f x) - (\<Sum>x\<leftarrow>xs. g x)\<bar>"
    by (rule abs_triangle_ineq)
  also have "\<dots> \<le> b + of_nat (length xs) * b"
    using Cons.prems[of a] Cons.IH Cons.prems by (simp add: add_mono)
  finally show ?case by (simp add: field_simps)
qed

lemma sort_desc_sum:
  fixes f :: "'a \<Rightarrow> 'b::comm_monoid_add"
  shows "sum_list (map f (sort_desc k xs)) = sum_list (map f xs)"
proof -
  have "mset (map f (sort_desc k xs)) = mset (map f xs)"
    by (simp add: sort_desc_def)
  then have "sum_mset (mset (map f (sort_desc k xs))) = sum_mset (mset (map f xs))"
    by simp
  then show ?thesis by (simp only: sum_mset_sum_list)
qed

lemma sort_desc_length: "length (sort_desc k xs) = length xs"
  by (simp add: sort_desc_def)

lemma percentage_entry:
  "percentage (category_entry hs T ce)
     = py_round1 (float_mul (float_div (of_nat (snd ce)) (of_nat T)) 100)"
  by (simp add: category_entry_def Let_def)

lemma percentage_error:
  assumes "0 < c" and "c \<le> t"
  shows "\<bar>py_round1 (float_mul (float_div (of_nat c) (of_nat t)) 100) - of_nat c / of_nat t * 100\<bar>
           \<le> 1 / 20 + 1 / 10 ^ 12"
proof -
  define q :: rat where "q = of_nat c / of_nat t"
  define a where "a = to_double q"
  define x where "x = to_double (a * 100)"
  define r :: rat where "r = of_int (round_half_even (x * 10)) / 10"
  define u :: rat where "u = 1 / 2 ^ 53"
  have t: "0 < t" using assms by simp
  have q0: "0 < q" using assms t by (simp add: q_def)
  have q1: "q \<le> 1" using assms t by (simp add: q_def)
  have "\<bar>a - q\<bar> \<le> \<bar>q\<bar> / 2 ^ 53" unfolding a_def by (rule to_double_error)
  then have ea: "\<bar>a - q\<bar> \<le> u" using q0 q1 by (simp add: u_def field_simps)
  have ua: "u \<le> 1 / 1000" by (simp add: u_def)
  have a2: "\<bar>a\<bar> \<le> 2" using ea q0 q1 ua by linarith
  have "\<bar>x - a * 100\<bar> \<le> \<bar>a * 100\<bar> / 2 ^ 53" unfolding x_def by (rule to_double_error)
  also have "\<dots> = \<bar>a\<bar> * (100 * u)" by (simp add: u_def abs_mult)
  also have "\<dots> \<le> 2 * (100 * u)" using a2 by (intro mult_right_mono) (simp_all add: u_def)
  finally have ex: "\<bar>x - a * 100\<bar> \<le> 200 * u" by simp
  have "\<bar>of_int (round_half_even (x * 10)) - x * 10\<bar> \<le> 1 / 2"
    by (rule round_half_even_error)
  then have er: "\<bar>r - x\<bar> \<le> 1 / 20"
    unfolding r_def by (simp add: abs_if field_simps split: if_splits)
  have r102: "\<bar>r\<bar> \<le> 102" using er ex ea q0 q1 ua by linarith
  have "\<bar>to_double r - r\<bar> \<le> \<bar>r\<bar> / 2 ^ 53" by (rule to_double_error)
  also have "\<dots> = \<bar>r\<bar> * u" by (simp add: u_def)
  also have "\<dots> \<le> 102 * u" using r102 by (intro mult_right_mono) (simp_all add: u_def)
  finally have ep: "\<bar>to_double r - r\<bar> \<le> 102 * u" .
  define b :: rat where "b = 1 / 10 ^ 12"
  have "\<bar>to_double r - q * 100\<bar> \<le> 1 / 20 + 402 * u"
    using ep er ex ea by linarith
  moreover have "402 * u \<le> b" by (simp add: u_def b_def)
  ultimately have "\<bar>to_double r - q * 100\<bar> \<le> 1 / 20 + b" by linarith
  moreover have "py_round1 (float_mul (float_div (of_nat c) (of_nat t)) 100) = to_double r"
    by (simp add: py_round1_def float_mul_def float_div_def r_def x_def a_def q_def)
  ultimately show ?thesis unfolding q_def b_def by simp
qed

lemma three_single_percentages:
  "map percentage (analyze_categories three_single)
     = [2343279181116211 / 70368744177664, 2343279181116211 / 70368744177664,
        2343279181116211 / 70368744177664]"
  by code_simp

lemma one_double_percentages:
  "map percentage (analyze_categories one_double) = [50, 50]"
  by code_simp

text \<open>A share that is a decimal tie as an exact number but not as a double:
  \<^verbatim>\<open>23 / 80 * 100\<close> is the double 28.749999999999996, and \<^verbatim>\<open>round\<close> gives 28.7.\<close>

lemma percentage_below_tie:
  "py_round1 (float_mul (float_div 23 80) 100) = to_double (287 / 10)"
  by code_simp

subsection \<open>The post-count parser on numerals\<close>

lemma str_replace_empty: "str_replace c [] s = filter (\<lambda>x. x \<noteq> c) s"
  by (induction s) (simp_all add: str_replace_def)

lemma str_replace_append: "str_replace c r (s @ t) = str_replace c r s @ str_replace c r t"
  by (simp add: str_replace_def)

lemma not_digit_chars:
  "\<not> is_digit (CHR ''.'')" "\<not> is_digit (CHR '','')" "\<not> is_digit (CHR ''K'')"
  "\<not> is_digit (CHR ''M'')" "\<not> is_digit (CHR ''B'')"
  by (simp_all add: is_digit_def)

lemma upper_char_digit: "is_digit c \<Longrightarrow> upper_char c = c"
  by (simp add: is_digit_def upper_char_def Let_def)

lemma upper_char_fixed:
  "upper_char (CHR ''.'') = CHR ''.''" "upper_char (CHR '','') = CHR '',''"
  "upper_char (CHR ''K'') = CHR ''K''" "upper_char (CHR ''k'') = CHR ''K''"
  "upper_char (CHR ''M'') = CHR ''M''" "upper_char (CHR ''m'') = CHR ''M''"
  "upper_char (CHR ''B'') = CHR ''B''" "upper_char (CHR ''b'') = CHR ''B''"
  by (simp_all add: upper_char_def Let_def char_of_eq_iff)

lemma is_digit_upper: "is_digit (upper_char c) = is_digit c"
proof (cases "97 \<le> (of_char c :: nat) \<and> (of_char c :: nat) \<le> 122")
  case True
  then have m: "((of_char c :: nat) - 32) mod 256 = of_char c - 32"
    by (intro mod_less) linarith
  have "upper_char c = char_of ((of_char c :: nat) - 32)"
    using True by (simp add: upper_char_def Let_def)
  then have "(of_char (upper_char c) :: nat) = of_char c - 32"
    using m by simp
  with True show ?thesis
    by (auto simp: is_digit_def Let_def)
next
  case False
  then have "upper_char c = c" by (auto simp: upper_char_def Let_def)
  then show ?thesis by simp
qed

lemma re_search_no_digit: "\<forall>c\<in>set v. \<not> is_digit c \<Longrightarrow> re_search_number v = None"
proof -
  assume "\<forall>c\<in>set v. \<not> is_digit c"
  then have "dropWhile (\<lambda>c. \<not> is_digit c) v = []" by simp
  then show ?thesis by (simp add: re_search_number_def)
qed

lemma re_search_numeral:
  assumes "ip \<noteq> []" "\<forall>c\<in>set ip. is_digit c" "\<forall>c\<in>set fp. is_digit c"
    and "fr = [] \<or> fr = CHR ''.'' # fp"
  shows "re_search_number (ip @ fr) = Some (ip @ fr)"
proof -
  from assms(1,2) have hd: "is_digit (hd ip)" by (cases ip) auto
  have d: "dropWhile (\<lambda>c. \<not> is_digit c) (ip @ fr) = ip @ fr"
    using assms(1) hd by (cases ip) auto
  have t: "takeWhile is_digit (ip @ fr) = ip"
    using assms(2,4) by (auto simp: takeWhile_append2 not_digit_chars)
  have r: "dropWhile is_digit (ip @ fr) = fr"
    using assms(2,4) by (auto simp: dropWhile_append2 not_digit_chars)
  have tf: "takeWhile is_digit fp = fp" using assms(3) by simp
  show ?thesis
    unfolding re_search_number_def d t r Let_def using assms(1,4) tf by auto
qed

lemma py_float_numeral:
  assumes "\<forall>c\<in>set ip. is_digit c" and "fr = [] \<and> fp = [] \<or> fr = CHR ''.'' # fp"
  shows "py_float (ip @ fr) = to_double (decimal_value ip fp)"
proof -
  have t: "takeWhile is_digit (ip @ fr) = ip"
    using assms by (auto simp: takeWhile_append2 not_digit_chars)
  have "drop (length ip + 1) (ip @ fr) = fp" using assms(2) by auto
  then show ?thesis
    unfolding py_float_def Let_def t decimal_value_def by simp
qed

lemma upper_numeral:
  assumes "\<forall>c\<in>set s. is_digit c \<or> c = CHR ''.'' \<or> c = CHR '',''"
  shows "str_upper s = s"
  unfolding str_upper_def using assms
  by (induction s) (auto simp: upper_char_digit upper_char_fixed)

lemma numeral_chars:
  assumes "str_replace (CHR '','') [] s = ip @ fr" "\<forall>c\<in>set ip. is_digit c" "\<forall>c\<in>set fp. is_digit c"
    and "fr = [] \<and> fp = [] \<or> fr = CHR ''.'' # fp"
  shows "\<forall>c\<in>set s. is_digit c \<or> c = CHR ''.'' \<or> c = CHR '',''"
proof
  fix c assume c: "c \<in> set s"
  show "is_digit c \<or> c = CHR ''.'' \<or> c = CHR '',''"
  proof (cases "c = CHR '',''")
    case True then show ?thesis by simp
  next
    case False
    with c have "c \<in> set (str_replace (CHR '','') [] s)" by (simp add: str_replace_empty)
    then have "c \<in> set ip \<union> set fr" using assms(1) by simp
    then show ?thesis using assms(2,3,4) by auto
  qed
qed

lemma parse_suffixed:
  assumes ip: "ip \<noteq> []" "\<forall>c\<in>set ip. is_digit c" and fp: "\<forall>c\<in>set fp. is_digit c"
    and s: "str_replace (CHR '','') [] s = ip @ fr"
    and fr: "fr = [] \<and> fp = [] \<or> fr = CHR ''.'' # fp"
    and x: "upper_char x = X" "X \<in> {CHR ''K'', CHR ''M'', CHR ''B''}"
  shows "parse_count (CStr (s @ [x])) =
           to_double (to_double (decimal_value ip fp) *
             (if X = CHR ''K'' then 1000 else if X = CHR ''M'' then 1000000 else 1000000000))"
proof -
  have chars: "\<forall>c\<in>set s. is_digit c \<or> c = CHR ''.'' \<or> c = CHR '',''"
    using s ip(2) fp fr by (rule numeral_chars)
  have up: "str_upper (s @ [x]) = s @ [X]"
    using upper_numeral[OF chars] x(1) by (simp add: str_upper_def)
  have Xc: "X \<noteq> CHR '',''" using x(2) by auto
  have u: "str_replace (CHR '','') [] (str_upper (s @ [x])) = ip @ fr @ [X]"
    unfolding up using s Xc by (simp add: str_replace_append) (simp add: str_replace_def)
  have nd: "\<not> is_digit X" "X \<noteq> CHR ''.''" using x(2) by (auto simp: not_digit_chars)
  have notin: "Y \<notin> set (ip @ fr @ [X])"
    if "Y \<in> {CHR ''K'', CHR ''M'', CHR ''B''}" "Y \<noteq> X" for Y
  proof -
    have "\<not> is_digit Y" "Y \<noteq> CHR ''.''" using that(1) by (auto simp: not_digit_chars)
    then have "Y \<notin> set ip" "Y \<notin> set fp" using ip(2) fp by blast+
    then show ?thesis using fr that(2) \<open>Y \<noteq> CHR ''.''\<close> by auto
  qed
  have strip: "str_replace X [] (ip @ fr @ [X]) = ip @ fr"
  proof -
    have "X \<notin> set ip" "X \<notin> set fp" using ip(2) fp nd(1) by blast+
    then have "X \<notin> set (ip @ fr)" using fr nd(2) by auto
    then have "\<forall>c\<in>set (ip @ fr). c \<noteq> X" by blast
    then have "filter (\<lambda>c. c \<noteq> X) (ip @ fr) = ip @ fr" by (rule filter_True)
    then show ?thesis by (simp add: str_replace_empty)
  qed
  have re: "re_search_number (ip @ fr) = Some (ip @ fr)"
    using ip fp fr by (intro re_search_numeral[of ip fp fr]) auto
  have fl: "py_float (ip @ fr) = to_double (decimal_value ip fp)"
    using ip(2) fr by (rule py_float_numeral)
  from x(2) consider "X = CHR ''K''" | "X = CHR ''M''" | "X = CHR ''B''" by auto
  then show ?thesis
  proof cases
    case 1
    then show ?thesis
      using u strip re fl by (simp add: parse_count_def Let_def float_mul_def)
  next
    case 2
    then have "CHR ''K'' \<notin> set (ip @ fr @ [X])" using notin by simp
    with 2 show ?thesis
      using u strip re fl by (simp add: parse_count_def Let_def float_mul_def)
  next
    case 3
    then have "CHR ''K'' \<notin> set (ip @ fr @ [X])" "CHR ''M'' \<notin> set (ip @ fr @ [X])" using notin by simp_all
    with 3 show ?thesis
      using u strip re fl by (simp add: parse_count_def Let_def float_mul_def)
  qed
qed

lemma parse_no_digit:
  assumes "\<forall>c\<in>set s. \<not> is_digit c"
  shows "parse_count (CStr s) = 0"
proof -
  define u where "u = str_replace (CHR '','') [] (str_upper s)"
  have nu: "\<forall>c\<in>set u. \<not> is_digit c"
    using assms by (auto simp: u_def str_replace_empty str_upper_def is_digit_upper)
  have "\<And>X. re_search_number (str_replace X [] u) = None"
    using nu by (intro re_search_no_digit) (auto simp: str_replace_empty)
  moreover have "re_search_number u = None" using nu by (rule re_search_no_digit)
  ultimately show ?thesis
    by (simp add: parse_count_def Let_def u_def[symmetric])
qed

lemma decimal_value_nonneg: "0 \<le> decimal_value ip fp"
  by (simp add: decimal_value_def)

lemma double_examples:
  "to_double (2469 / 2) = 2469 / 2"
  "to_double 1234500 = 1234500"
  by code_simp+

text \<open>A product that is not exact: \<^verbatim>\<open>parse_count("8.2M")\<close> is the double
  8199999.999999999, not 8200000.\<close>

lemma parse_count_inexact:
  "parse_count (CStr ''8.2M'') = 8804682956799999 / 1073741824"
  by code_simp

subsection \<open>The topic modeler on well-formed records\<close>

lemma read_hashtags_wellformed: "read_hashtags (map Hashtag hs) = Inr hs"
  by (induction hs) simp_all

lemma json_wellformed:
  "identify_hashtag_topics_json lib (map Hashtag hs) k = identify_hashtag_topics lib hs k"
  by (cases hs) (simp_all add: identify_hashtag_topics_json_def identify_hashtag_topics_def
      read_hashtags_wellformed)

subsection \<open>The fit score as a function of the draw\<close>

text \<open>For the same hashtag and song, two fit scores differ by no more than their draws
  do; with the same draw they are equal.\<close>

lemma fit_score_draw_sensitivity:
  "\<bar>calculate_combination_score h s r1 - calculate_combination_score h s r2\<bar> \<le> \<bar>r1 - r2\<bar>"
  by (simp add: calculate_combination_score_def uncapped_combination_score_def Let_def min_def max_def)

section \<open>Similarity clusterer: membership\<close>

text \<open>
  C1. The claim: every cluster has at least two members, and a hashtag that has been
  assigned to a cluster is never added to a later one. The first half holds
  (\<open>cluster_hashtags_size\<close>). The second half fails: the inner loop of
  \<^verbatim>\<open>cluster_hashtags\<close> adds every later hashtag similar to the seed, without asking
  whether it is already in \<open>processed\<close>. On \<open>#cat\<close>, \<open>#dog\<close>, \<open>#catdog\<close> the seed
  \<open>#cat\<close> takes \<open>#catdog\<close>, and the seed \<open>#dog\<close>, not similar to \<open>#cat\<close>, takes
  \<open>#catdog\<close> again: the code emits two clusters that share a member.
\<close>

theorem cluster_hashtags_shared_member:
  "map items (cluster_hashtags
      [plain_hashtag ''#cat'' 1, plain_hashtag ''#dog'' 2, plain_hashtag ''#catdog'' 3])
   = [[(''#cat'', 1), (''#catdog'', 3)], [(''#dog'', 2), (''#catdog'', 3)]]"
  by (simp add: cluster_hashtags_def plain_hashtag_def are_hashtags_similar_def make_cluster_def
      str_lower_def lower_char_def str_replace_def str_split_def is_space_def Let_def)

section \<open>Topic modeler: guards and defaults\<close>

text \<open>
  C2, as stated: on the empty hashtag list the topic modeler returns the three default
  topics. It does not: the first guard of \<^verbatim>\<open>identify_hashtag_topics\<close> returns the
  empty list for an empty input.
\<close>

theorem topics_empty_input_counterexample:
  "identify_hashtag_topics raising_lib [] 5 = Inr []
   \<and> identify_hashtag_topics raising_lib [] 5 \<noteq> Inr generate_default_topics"
  by (simp add: identify_hashtag_topics_def generate_default_topics_def)

text \<open>
  C2, amended: on the empty list the topic modeler returns the empty list; on a non-empty
  list of fewer than five hashtags it returns exactly the three default topics
  (Entertainment, Lifestyle, Food) with strengths 0.85, 0.75 and 0.70 and no member
  hashtags; and on every non-empty list its output is not empty. This holds whatever the
  library calls do.
\<close>

theorem topics_small_input_defaults:
  "identify_hashtag_topics lib [] k = Inr []
  \<and> (hs \<noteq> [] \<and> length hs < 5 \<longrightarrow> identify_hashtag_topics lib hs k = Inr generate_default_topics)
  \<and> (hs \<noteq> [] \<longrightarrow> (\<exists>ts. identify_hashtag_topics lib hs k = Inr ts \<and> ts \<noteq> []))
  \<and> map topic_name generate_default_topics
      = [''Entertainment Content'', ''Lifestyle Content'', ''Food Content'']
  \<and> map strength generate_default_topics = [85 / 100, 75 / 100, 70 / 100]
  \<and> map topic_hashtags generate_default_topics = [[], [], []]"
  by (auto simp: identify_hashtag_topics_def topic_modeling_def generate_default_topics_def Let_def
      split: sum.splits)

theorem topics_small_input_defaults_witness:
  "[plain_hashtag ''#cat'' 1] \<noteq> [] \<and> length [plain_hashtag ''#cat'' 1] < 5
   \<and> identify_hashtag_topics raising_lib [plain_hashtag ''#cat'' 1] 5 = Inr generate_default_topics"
  using topics_small_input_defaults[of raising_lib 5 "[plain_hashtag ''#cat'' 1]"]
  by simp

section \<open>Topic modeler: failure semantics\<close>

text \<open>
  C6, as stated: for every input the stage catches any exception and never raises to its
  caller. The loop that builds the corpus stands before the \<^verbatim>\<open>try\<close> block: on a
  list whose element has no \<^verbatim>\<open>"hashtag"\<close> key the stage raises \<^verbatim>\<open>KeyError\<close>, and
  on an element whose text is \<^verbatim>\<open>null\<close> it raises \<^verbatim>\<open>AttributeError\<close>.
\<close>

theorem topic_stage_raises_counterexample:
  "identify_hashtag_topics_json raising_lib [Missing_text] 5 = Inl KeyError
   \<and> identify_hashtag_topics_json raising_lib [Null_text] 5 = Inl AttributeError"
  by (simp add: identify_hashtag_topics_json_def)

text \<open>
  C6, amended: for every input whose elements all carry a hashtag text, the stage returns
  a value and raises nothing; and when one of the calls inside the \<^verbatim>\<open>try\<close> block
  raises (the vectorizer, the fit of the topic model, or the extraction of the topics),
  the stage returns the default topic set.
\<close>

theorem topic_stage_never_raises:
  "(\<exists>ts. identify_hashtag_topics_json lib (map Hashtag hs) k = Inr ts)
  \<and> (5 \<le> length hs \<and>
       (let corpus = map (\<lambda>h. clean_text (hashtag h)) hs;
            min_df = (if length hs < 10 then 1 else 2);
            max_df = (if length hs < 10 then 95 / 100 else 9 / 10)
        in fit_transform lib min_df max_df corpus = Inl e
           \<or> (\<exists>dtm. fit_transform lib min_df max_df corpus = Inr dtm \<and> dtm_sum lib dtm \<noteq> 0
                \<and> (lda_fit lib (min k (int (length hs) div 2 + 1)) 42 dtm = Inl e
                    \<or> (\<exists>lda. lda_fit lib (min k (int (length hs) div 2 + 1)) 42 dtm = Inr lda
                          \<and> extract_topics lib dtm lda hs = Inl e))))
        \<longrightarrow> identify_hashtag_topics_json lib (map Hashtag hs) k = Inr generate_default_topics)"
proof -
  have a: "\<exists>ts. identify_hashtag_topics_json lib (map Hashtag hs) k = Inr ts"
    unfolding json_wellformed
    by (auto simp: identify_hashtag_topics_def Let_def split: sum.splits)
  have b: "identify_hashtag_topics lib hs k = Inr generate_default_topics"
    if "topic_modeling lib (map (\<lambda>h. clean_text (hashtag h)) hs) hs k = Inl e'" "5 \<le> length hs" for e'
    using that by (auto simp: identify_hashtag_topics_def Let_def)
  show ?thesis
    unfolding json_wellformed
    using a[unfolded json_wellformed] b
    by (auto simp: topic_modeling_def Let_def split: if_splits)
qed

theorem topic_stage_never_raises_witness:
  "5 \<le> length five_hashtags
   \<and> fit_transform raising_lib 1 (95 / 100) (map (\<lambda>h. clean_text (hashtag h)) five_hashtags)
       = Inl (PyException ''empty vocabulary'')
   \<and> identify_hashtag_topics_json raising_lib (map Hashtag five_hashtags) 5
       = Inr generate_default_topics"
proof -
  have len: "length five_hashtags = 5" by (simp add: five_hashtags_def)
  have raise: "fit_transform raising_lib 1 (95 / 100) (map (\<lambda>h. clean_text (hashtag h)) five_hashtags)
       = Inl (PyException ''empty vocabulary'')"
    by (simp add: raising_lib_def)
  show ?thesis
    using topic_stage_never_raises[of raising_lib five_hashtags 5 "PyException ''empty vocabulary''"]
      len raise
    by (simp add: Let_def)
qed

section \<open>Trend predictor: score range and status\<close>

text \<open>
  C5. Every prediction has a score in [5, 95]; its status is given by the ordered
  thresholds on that capped score (at least 70 strongly\_rising, else at least 60
  rising, else at most 30 strongly\_declining, else at most 40 declining, else stable),
  although the code applies the chain to the score before the cap; and its longevity is
  the fixed string of its status.
\<close>

theorem prediction_score_status:
  assumes "p \<in> set (predict_trend_future hashtags_7d hashtags_30d)"
  shows "5 \<le> score p \<and> score p \<le> 95
       \<and> status p =
            (if score p \<ge> 70 then ''strongly_rising''
             else if score p \<ge> 60 then ''rising''
             else if score p \<le> 30 then ''strongly_declining''
             else if score p \<le> 40 then ''declining''
             else ''stable'')
       \<and> longevity p =
            (if status p = ''strongly_rising'' then ''2-3 weeks''
             else if status p = ''rising'' then ''1-2 weeks''
             else if status p = ''stable'' then ''5-7 days''
             else if status p = ''declining'' then ''2-4 days''
             else ''1-2 days'')"
proof -
  from assms obtain h where p: "p = predict_one (hashtags_map hashtags_30d) h"
    by (auto simp: predict_trend_future_def sort_desc_set)
  have st: "status p = prediction_status (score p)"
    unfolding p by (simp add: predict_one_def Let_def prediction_status_clamp)
  have lo: "longevity p = estimate_trend_longevity (status p)"
    unfolding p by (simp add: predict_one_def Let_def)
  have rg: "5 \<le> score p \<and> score p \<le> 95"
    unfolding p by (simp add: predict_one_def Let_def)
  from rg st lo show ?thesis
    unfolding prediction_status_def estimate_trend_longevity_def by blast
qed

theorem prediction_score_status_witness:
  "score (hd (predict_trend_future [dancechallenge] [])) = 75
   \<and> status (hd (predict_trend_future [dancechallenge] [])) = ''strongly_rising''
   \<and> longevity (hd (predict_trend_future [dancechallenge] [])) = ''2-3 weeks''"
proof -
  have s: "score (hd (predict_trend_future [dancechallenge] [])) = 75"
    by (simp add: predict_trend_future_def sort_desc_def predict_one_def raw_score_def hashtags_map_def
      dancechallenge_def plain_hashtag_def get_or_def Let_def)
  have m: "hd (predict_trend_future [dancechallenge] []) \<in> set (predict_trend_future [dancechallenge] [])"
    by (simp add: predict_trend_future_def sort_desc_def)
  show ?thesis
    using prediction_score_status[OF m] s by simp
qed

section \<open>The scenario of the rising hashtag\<close>

text \<open>
  C7. The hashtag \<open>#dancechallenge\<close> with rank 1, direction up and change 12, absent
  from the 30-day list: enrichment gives the stage rising, and the predictor gives the
  score 50 + 20 + 15 + 5 = 90, the status strongly\_rising and the longevity 2-3 weeks.
\<close>

theorem dancechallenge_scenario:
  assumes "''#dancechallenge'' \<notin> hashtag ` set hashtags_30d"
  shows "lifecycle_stage (enrich_hashtag dancechallenge) = Some ''rising''
       \<and> predict_trend_future [enrich_hashtag dancechallenge] hashtags_30d =
           [\<lparr> pred_hashtag = ''#dancechallenge'', current_rank = 1, current_stage = ''rising'',
               score = 90, status = ''strongly_rising'', longevity = ''2-3 weeks'' \<rparr>]"
proof -
  have m: "hashtags_map hashtags_30d ''#dancechallenge'' = None"
    using assms by (rule hashtags_map_None)
  have raw: "raw_score (hashtags_map hashtags_30d) (enrich_hashtag dancechallenge) = 90"
    by (simp add: raw_score_def enriched_fields m get_or_def)
  have one: "predict_one (hashtags_map hashtags_30d) (enrich_hashtag dancechallenge) =
      \<lparr> pred_hashtag = ''#dancechallenge'', current_rank = 1, current_stage = ''rising'',
        score = 90, status = ''strongly_rising'', longevity = ''2-3 weeks'' \<rparr>"
    by (simp add: predict_one_def raw Let_def prediction_status_def estimate_trend_longevity_def
        enriched_fields get_or_def)
  show ?thesis
    by (simp add: predict_trend_future_def sort_desc_def one enriched_fields)
qed

theorem dancechallenge_scenario_witness:
  "''#dancechallenge'' \<notin> hashtag ` set [plain_hashtag ''#foodie'' 1]
   \<and> predict_trend_future [enrich_hashtag dancechallenge] [plain_hashtag ''#foodie'' 1] =
           [\<lparr> pred_hashtag = ''#dancechallenge'', current_rank = 1, current_stage = ''rising'',
               score = 90, status = ''strongly_rising'', longevity = ''2-3 weeks'' \<rparr>]"
  using dancechallenge_scenario[of "[plain_hashtag ''#foodie'' 1]"]
  by (simp add: plain_hashtag_def)

section \<open>Emerging-trend detector\<close>

text \<open>
  C9. The output holds exactly one entry for each hashtag that is up with a change above
  8 or has accelerating momentum, and one for each breakout song. A hashtag entry has
  the confidence min(95, 50 + 3 * change), a song entry the confidence 90, and the list
  is in descending order of confidence.
\<close>

theorem emerging_trends_spec:
  "mset (identify_emerging_trends hs songs) =
     mset (map hashtag_entry
            (filter (\<lambda>h. (ranking_direction h = Some ''up'' \<and> get_or (ranking_change h) 0 > 8)
                        \<or> period_momentum h = Some ''accelerating'') hs))
     + mset (map song_entry songs)
   \<and> e_type (hashtag_entry h) = ''hashtag'' \<and> item (hashtag_entry h) = hashtag h
   \<and> confidence (hashtag_entry h) = min 95 (50 + 3 * get_or (ranking_change h) 0)
   \<and> e_type (song_entry s) = ''song'' \<and> confidence (song_entry s) = 90
   \<and> sorted_wrt (\<lambda>a b. confidence a \<ge> confidence b) (identify_emerging_trends hs songs)"
proof -
  have q: "hashtag_qualifies =
      (\<lambda>h. (ranking_direction h = Some ''up'' \<and> get_or (ranking_change h) 0 > 8)
            \<or> period_momentum h = Some ''accelerating'')"
    by (rule ext) (simp add: hashtag_qualifies_def)
  have "mset (identify_emerging_trends hs songs) =
     mset (map hashtag_entry (filter hashtag_qualifies hs)) + mset (map song_entry songs)"
    by (simp add: identify_emerging_trends_def sort_desc_mset)
  moreover have "sorted_wrt (\<lambda>a b. confidence a \<ge> confidence b) (identify_emerging_trends hs songs)"
    unfolding identify_emerging_trends_def by (rule sort_desc_sorted)
  ultimately show ?thesis
    unfolding q by (simp add: hashtag_entry_def song_entry_def mult.commute)
qed

section \<open>Category analyzer: sum of the percentages\<close>

text \<open>
  C3, as stated: when no hashtag carries more than one category the percentages sum to
  exactly 100.0, and with multi-category hashtags the sum exceeds 100. Three hashtags in
  three different categories give the double 33.3 three times, which sums to less than
  100; and one hashtag with two categories gives 50.0 and 50.0, which does not exceed
  100, because the divisor is the number of tag assignments, not the number of hashtags.
\<close>

theorem category_percentages_counterexample:
  "sum_list (map percentage (analyze_categories three_single)) = 7029837543348633 / 70368744177664
   \<and> sum_list (map percentage (analyze_categories three_single)) < 100
   \<and> \<not> sum_list (map percentage (analyze_categories one_double)) > 100"
  by (simp add: three_single_percentages one_double_percentages)

text \<open>
  C3, amended: for every input with a non-empty result, the percentages (count divided
  by total tag assignments, times 100, rounded to one decimal, all in double
  arithmetic), added as exact numbers, sum to 100 up to the rounding of each entry: the
  sum differs from 100 by at most 0.05 + 0.000000000001 per category, whether or not a
  hashtag carries more than one category.
\<close>

theorem category_percentages_sum:
  assumes "analyze_categories hs \<noteq> []"
  shows "\<bar>sum_list (map percentage (analyze_categories hs)) - 100\<bar>
           \<le> of_nat (length (analyze_categories hs)) * (1 / 20 + 1 / 10 ^ 12)"
proof -
  define d where "d = category_counts_of hs"
  define T where "T = sum_list (map snd d)"
  have ac: "analyze_categories hs = sort_desc (\<lambda>c. int (cat_count c)) (map (category_entry hs T) d)"
    using assms unfolding analyze_categories_def d_def T_def by (simp add: Let_def split: if_splits)
  from assms ac have dne: "d \<noteq> []" by (auto simp: sort_desc_def)
  have pos: "\<And>k n. (k, n) \<in> set d \<Longrightarrow> 0 < n"
    using count_all_pos by (auto simp: d_def category_counts_of_def)
  have "0 < T" unfolding T_def by (rule sum_list_pos_total[OF dne pos])
  have sum: "sum_list (map percentage (analyze_categories hs))
              = (\<Sum>ce\<leftarrow>d. py_round1 (float_mul (float_div (of_nat (snd ce)) (of_nat T)) 100))"
    unfolding ac sort_desc_sum by (simp add: o_def percentage_entry)
  have len: "length (analyze_categories hs) = length d"
    unfolding ac by (simp add: sort_desc_length)
  have "(\<Sum>ce\<leftarrow>d. (of_nat (snd ce) / of_nat T * 100 :: rat)) = of_nat T / of_nat T * 100"
    unfolding T_def by (rule exact_shares_sum)
  then have exact: "(\<Sum>ce\<leftarrow>d. (of_nat (snd ce) / of_nat T * 100 :: rat)) = 100"
    using \<open>0 < T\<close> by simp
  have each: "\<bar>py_round1 (float_mul (float_div (of_nat (snd ce)) (of_nat T)) 100)
                - of_nat (snd ce) / of_nat T * 100\<bar> \<le> 1 / 20 + 1 / 10 ^ 12"
    if "ce \<in> set d" for ce
  proof (rule percentage_error)
    show "0 < snd ce" using pos[of "fst ce" "snd ce"] that by simp
    show "snd ce \<le> T" unfolding T_def using that by (rule member_le_total)
  qed
  show ?thesis
    unfolding sum len
    using sum_error_bound[of d "\<lambda>ce. py_round1 (float_mul (float_div (of_nat (snd ce)) (of_nat T)) 100)"
        "\<lambda>ce. of_nat (snd ce) / of_nat T * 100" "1 / 20 + 1 / 10 ^ 12", OF each] exact
    by simp
qed

theorem category_percentages_sum_witness:
  "analyze_categories three_single \<noteq> []
   \<and> \<bar>sum_list (map percentage (analyze_categories three_single)) - 100\<bar>
        \<le> 3 * (1 / 20 + 1 / 10 ^ 12)"
proof -
  have len: "length (analyze_categories three_single) = 3"
    using arg_cong[OF three_single_percentages, of length] by simp
  then have ne: "analyze_categories three_single \<noteq> []" by auto
  show ?thesis
    using category_percentages_sum[OF ne] ne len by simp
qed

section \<open>Post-count parser\<close>

text \<open>
  C8. Let \<open>s\<close> be a decimal numeral, possibly with thousands separators: without its
  commas it is the digits \<open>ip\<close>, alone or followed by a point and the digits \<open>fp\<close>,
  each at most 290 digits long, so that every value stays in the range of the normal
  doubles. Then \<open>s\<close> followed by K, M or B, in either case, parses to the number (as
  \<^verbatim>\<open>float\<close> reads it) times 1000, 1000000 or 1000000000 in double arithmetic, which
  is within the relative error \<open>2 ^ -51\<close> of the exact product. A string without any
  digit and a missing input parse to 0. A number parses to itself, so parsing the result
  of a parse returns the same value.
\<close>

theorem parse_count_spec:
  assumes "ip \<noteq> []" and "\<forall>c\<in>set ip. is_digit c" and "\<forall>c\<in>set fp. is_digit c"
    and "length ip \<le> 290" and "length fp \<le> 290"
    and "str_replace (CHR '','') [] s = ip @ fr"
    and "fr = [] \<and> fp = [] \<or> fr = CHR ''.'' # fp"
    and "\<forall>c\<in>set t. \<not> is_digit c"
  shows "parse_count (CStr (s @ ''K'')) = float_mul (to_double (decimal_value ip fp)) 1000
       \<and> parse_count (CStr (s @ ''k'')) = float_mul (to_double (decimal_value ip fp)) 1000
       \<and> parse_count (CStr (s @ ''M'')) = float_mul (to_double (decimal_value ip fp)) 1000000
       \<and> parse_count (CStr (s @ ''m'')) = float_mul (to_double (decimal_value ip fp)) 1000000
       \<and> parse_count (CStr (s @ ''B'')) = float_mul (to_double (decimal_value ip fp)) 1000000000
       \<and> parse_count (CStr (s @ ''b'')) = float_mul (to_double (decimal_value ip fp)) 1000000000
       \<and> \<bar>parse_count (CStr (s @ ''K'')) - decimal_value ip fp * 1000\<bar>
            \<le> decimal_value ip fp * 1000 / 2 ^ 51
       \<and> \<bar>parse_count (CStr (s @ ''M'')) - decimal_value ip fp * 1000000\<bar>
            \<le> decimal_value ip fp * 1000000 / 2 ^ 51
       \<and> \<bar>parse_count (CStr (s @ ''B'')) - decimal_value ip fp * 1000000000\<bar>
            \<le> decimal_value ip fp * 1000000000 / 2 ^ 51
       \<and> parse_count (CStr t) = 0
       \<and> parse_count CNone = 0
       \<and> parse_count (CNum n) = n
       \<and> parse_count (CNum (parse_count x)) = parse_count x"
proof -
  note ps = parse_suffixed[OF assms(1-3) assms(6,7)]
  note fe = float_product_error[OF decimal_value_nonneg[of ip fp]]
  have K: "parse_count (CStr (s @ ''K'')) = float_mul (to_double (decimal_value ip fp)) 1000"
    using ps[of "CHR ''K''" "CHR ''K''"] by (simp add: upper_char_fixed float_mul_def)
  have k: "parse_count (CStr (s @ ''k'')) = float_mul (to_double (decimal_value ip fp)) 1000"
    using ps[of "CHR ''k''" "CHR ''K''"] by (simp add: upper_char_fixed float_mul_def)
  have M: "parse_count (CStr (s @ ''M'')) = float_mul (to_double (decimal_value ip fp)) 1000000"
    using ps[of "CHR ''M''" "CHR ''M''"] by (simp add: upper_char_fixed float_mul_def)
  have m: "parse_count (CStr (s @ ''m'')) = float_mul (to_double (decimal_value ip fp)) 1000000"
    using ps[of "CHR ''m''" "CHR ''M''"] by (simp add: upper_char_fixed float_mul_def)
  have B: "parse_count (CStr (s @ ''B'')) = float_mul (to_double (decimal_value ip fp)) 1000000000"
    using ps[of "CHR ''B''" "CHR ''B''"] by (simp add: upper_char_fixed float_mul_def)
  have b: "parse_count (CStr (s @ ''b'')) = float_mul (to_double (decimal_value ip fp)) 1000000000"
    using ps[of "CHR ''b''" "CHR ''B''"] by (simp add: upper_char_fixed float_mul_def)
  have eK: "\<bar>parse_count (CStr (s @ ''K'')) - decimal_value ip fp * 1000\<bar>
            \<le> decimal_value ip fp * 1000 / 2 ^ 51"
    unfolding K float_mul_def by (rule fe) simp
  have eM: "\<bar>parse_count (CStr (s @ ''M'')) - decimal_value ip fp * 1000000\<bar>
            \<le> decimal_value ip fp * 1000000 / 2 ^ 51"
    unfolding M float_mul_def by (rule fe) simp
  have eB: "\<bar>parse_count (CStr (s @ ''B'')) - decimal_value ip fp * 1000000000\<bar>
            \<le> decimal_value ip fp * 1000000000 / 2 ^ 51"
    unfolding B float_mul_def by (rule fe) simp
  have z: "parse_count (CStr t) = 0"
    using assms(8) by (rule parse_no_digit)
  have n: "parse_count CNone = 0" "parse_count (CNum n) = n"
    by (simp_all add: parse_count_def)
  have i: "parse_count (CNum (parse_count x)) = parse_count x"
    by (simp add: parse_count_def)
  from K k M m B b eK eM eB z n i show ?thesis by blast
qed

theorem parse_count_spec_witness:
  "''1234'' \<noteq> [] \<and> str_replace (CHR '','') [] ''1,234.5'' = ''1234'' @ ''.5''
   \<and> parse_count (CStr ''1,234.5K'') = 1234500
   \<and> \<bar>parse_count (CStr ''1,234.5K'') - 12345 / 10 * 1000\<bar> \<le> 12345 / 10 * 1000 / 2 ^ 51
   \<and> parse_count (CStr ''N/A'') = 0
   \<and> parse_count (CNum (parse_count (CStr ''1,234.5K''))) = parse_count (CStr ''1,234.5K'')"
proof -
  have h1: "''1234'' \<noteq> []" by simp
  have h2: "\<forall>c\<in>set ''1234''. is_digit c" by (simp add: is_digit_def)
  have h3: "\<forall>c\<in>set ''5''. is_digit c" by (simp add: is_digit_def)
  have h4: "length ''1234'' \<le> 290" "length ''5'' \<le> 290" by simp_all
  have h5: "str_replace (CHR '','') [] ''1,234.5'' = ''1234'' @ ''.5''" by (simp add: str_replace_def)
  have h6: "''.5'' = [] \<and> ''5'' = [] \<or> ''.5'' = CHR ''.'' # ''5''" by simp
  have h7: "\<forall>c\<in>set ''N/A''. \<not> is_digit c" by (simp add: is_digit_def)
  have v: "decimal_value ''1234'' ''5'' = 12345 / 10"
    by (simp add: decimal_value_def nat_of_digits_def)
  show ?thesis
    using parse_count_spec[OF h1 h2 h3 h4 h5 h6 h7, where x = "CStr ''1,234.5K''"] h5
    by (simp add: v float_mul_def double_examples)
qed

section \<open>Fit score: range\<close>

text \<open>
  C10. For a draw in [-5, 5] the score before the cap is at least 65, so the lower cap
  at 60 never binds: the fit score is the smaller of the uncapped score and 95, and it
  lies in [65, 95].
\<close>

theorem fit_score_range:
  assumes "-5 \<le> r" and "r \<le> 5"
  shows "65 \<le> uncapped_combination_score h s r
       \<and> calculate_combination_score h s r = min (uncapped_combination_score h s r) 95
       \<and> 65 \<le> calculate_combination_score h s r \<and> calculate_combination_score h s r \<le> 95"
  using assms by (simp add: calculate_combination_score_def uncapped_combination_score_def Let_def)

theorem fit_score_range_witness:
  "(-5::int) \<le> -5 \<and> (-5::int) \<le> 5
   \<and> calculate_combination_score dancechallenge (plain_song ''Song'') (-5) = 65"
  using fit_score_range[of "-5" dancechallenge "plain_song ''Song''"]
  by (simp add: calculate_combination_score_def uncapped_combination_score_def Let_def
      dancechallenge_def plain_hashtag_def plain_song_def)

end
